theory Spec2Isabelle
  imports Main
begin

section \<open>Collaborators of the scheduler\<close>

text \<open>
  \<^verbatim>\<open>Scheduler.js\<close> requires \<^verbatim>\<open>./Queue\<close> and \<^verbatim>\<open>./constants/index\<close>. The scheduler
  only reads the queue type and the priority level of a queue, asks whether it is empty,
  enqueues into it, and hands it a work time.
\<close>

text \<open>
  Modelled from the spec: the role tag \<^verbatim>\<open>QueueType\<close> of \<^verbatim>\<open>constants/index.js\<close>, which
  tells the blocking queue from a CPU queue.
\<close>

datatype QueueType = CPU_QUEUE | BLOCKING_QUEUE

text \<open>
  Modelled from the spec: the interrupt vocabulary \<^verbatim>\<open>SchedulerInterrupt\<close> of
  \<^verbatim>\<open>constants/index.js\<close>. The handler dispatches on strings; any other string is an
  unknown interrupt.
\<close>

definition PROCESS_BLOCKED :: string where
  "PROCESS_BLOCKED = ''PROCESS_BLOCKED''"

definition PROCESS_READY :: string where
  "PROCESS_READY = ''PROCESS_READY''"

definition LOWER_PRIORITY :: string where
  "LOWER_PRIORITY = ''LOWER_PRIORITY''"

text \<open>
  What a call can throw: \<^verbatim>\<open>TypeError\<close> when a method is called on \<^verbatim>\<open>undefined\<close>
  (an index outside \<^verbatim>\<open>runningQueues\<close>), \<^verbatim>\<open>EmptyQueue\<close> when a queue is asked to
  work with no process in it.
\<close>

datatype error = TypeError | EmptyQueue

text \<open>
  Modelled from the spec: the class \<^verbatim>\<open>Queue\<close> of \<^verbatim>\<open>Queue.js\<close>: an ordered sequence of
  processes, a quantum, a priority level and a role tag. The constructor arguments are
  those of \<^verbatim>\<open>new Queue(this, quantum, priorityLevel, queueType)\<close>; the reference back to
  the scheduler is the state that every operation below takes explicitly.
\<close>

record 'p Queue =
  processes :: "'p list"
  quantum :: int
  priorityLevel :: int
  queueType :: QueueType

text \<open>
  Modelled from the spec: the constructor of \<^verbatim>\<open>Queue\<close>. Processes enter a queue only by
  \<^verbatim>\<open>enqueue\<close>, so a new queue holds none.
\<close>

definition new_Queue :: "int \<Rightarrow> int \<Rightarrow> QueueType \<Rightarrow> 'p Queue" where
  "new_Queue qu lvl ty =
     \<lparr>processes = [], quantum = qu, priorityLevel = lvl, queueType = ty\<rparr>"

text \<open>Modelled from the spec: \<^verbatim>\<open>enqueue\<close> appends the process to the tail and always succeeds.\<close>

definition enqueue :: "'p Queue \<Rightarrow> 'p \<Rightarrow> 'p Queue" where
  "enqueue q p = q\<lparr>processes := processes q @ [p]\<rparr>"

text \<open>Modelled from the spec: \<^verbatim>\<open>isEmpty\<close> tells whether the queue holds no process.\<close>

definition isEmpty :: "'p Queue \<Rightarrow> bool" where
  "isEmpty q = (processes q = [])"

text \<open>Modelled from the spec: the two accessors of a queue.\<close>

definition getQueueType :: "'p Queue \<Rightarrow> QueueType" where
  "getQueueType q = queueType q"

definition getPriorityLevel :: "'p Queue \<Rightarrow> int" where
  "getPriorityLevel q = priorityLevel q"

section \<open>The scheduler\<close>

text \<open>
  The fields of \<^verbatim>\<open>class Scheduler\<close>. The constant \<^verbatim>\<open>PRIORITY_LEVELS\<close> comes from
  \<^verbatim>\<open>constants/index.js\<close>; it is the parameter \<open>PL\<close> of every operation that reads it.
  The reading of \<^verbatim>\<open>Date.now()\<close> is a parameter as well.
\<close>

record 'p Scheduler =
  clock :: int
  blockingQueue :: "'p Queue"
  runningQueues :: "'p Queue list"

text \<open>
  The loop of the constructor. The array starts empty and \<open>i\<close> counts up from \<open>0\<close>, so
  the store \<^verbatim>\<open>this.runningQueues[i] = ...\<close> writes one past the last element each time.
\<close>

function constructor_loop :: "nat \<Rightarrow> nat \<Rightarrow> 'p Queue list \<Rightarrow> 'p Queue list" where
  "constructor_loop PL i qs =
     (if i < PL
      then constructor_loop PL (i + 1) (qs @ [new_Queue (10 + int i * 20) (int i) CPU_QUEUE])
      else qs)"
  by pat_completeness auto
termination
  by (relation "measure (\<lambda>(PL, i, qs). PL - i)") auto

declare constructor_loop.simps [simp del]

definition Scheduler_constructor :: "nat \<Rightarrow> int \<Rightarrow> 'p Scheduler" where
  "Scheduler_constructor PL now =
     \<lparr>clock = now,
      blockingQueue = new_Queue 50 0 BLOCKING_QUEUE,
      runningQueues = constructor_loop PL 0 []\<rparr>"

text \<open>
  \<^verbatim>\<open>this.runningQueues[k].enqueue(process)\<close>: outside the array the element is
  \<^verbatim>\<open>undefined\<close> and the call throws.
\<close>

definition runningQueues_enqueue :: "'p Scheduler \<Rightarrow> int \<Rightarrow> 'p \<Rightarrow> error + 'p Scheduler" where
  "runningQueues_enqueue s k p =
     (if 0 \<le> k \<and> nat k < length (runningQueues s)
      then Inr (s\<lparr>runningQueues :=
                  (runningQueues s)[nat k := enqueue (runningQueues s ! nat k) p]\<rparr>)
      else Inl TypeError)"

definition blockingQueue_enqueue :: "'p Scheduler \<Rightarrow> 'p \<Rightarrow> 'p Scheduler" where
  "blockingQueue_enqueue s p = s\<lparr>blockingQueue := enqueue (blockingQueue s) p\<rparr>"

definition addNewProcess :: "'p Scheduler \<Rightarrow> 'p \<Rightarrow> error + 'p Scheduler" where
  "addNewProcess s p = runningQueues_enqueue s 0 p"

definition handleInterrupt ::
  "nat \<Rightarrow> 'p Scheduler \<Rightarrow> 'p Queue \<Rightarrow> 'p \<Rightarrow> string \<Rightarrow> error + 'p Scheduler" where
  "handleInterrupt PL s queue p interrupt =
     (if interrupt = PROCESS_BLOCKED then Inr (blockingQueue_enqueue s p)
      else if interrupt = PROCESS_READY then addNewProcess s p
      else if interrupt = LOWER_PRIORITY then
        (if getQueueType queue = CPU_QUEUE
         then runningQueues_enqueue s (min (int PL - 1) (getPriorityLevel queue + 1)) p
         else Inr (blockingQueue_enqueue s p))
      else Inr s)"

text \<open>
  \<^verbatim>\<open>allEmpty\<close> reads the queues and returns a boolean; the state it leaves behind is
  returned with it.
\<close>

definition allEmpty :: "'p Scheduler \<Rightarrow> bool \<times> 'p Scheduler" where
  "allEmpty s = (list_all isEmpty (runningQueues s) \<and> isEmpty (blockingQueue s), s)"

text \<open>
  The scan of \<^verbatim>\<open>run\<close> over the CPU queues, from index \<open>i\<close>: the first queue that is not
  empty does CPU work for \<open>workTime\<close> and the scan stops. The work of a queue is the
  parameter \<open>doCPUWork\<close>, given the index of the queue.
\<close>

function scan_runningQueues ::
  "nat \<Rightarrow> (nat \<Rightarrow> int \<Rightarrow> 'p Scheduler \<Rightarrow> error + 'p Scheduler) \<Rightarrow> int \<Rightarrow> nat \<Rightarrow> 'p Scheduler
     \<Rightarrow> error + 'p Scheduler" where
  "scan_runningQueues PL doCPUWork workTime i s =
     (if i < PL then
        (if i < length (runningQueues s) then
           (if \<not> isEmpty (runningQueues s ! i) then doCPUWork i workTime s
            else scan_runningQueues PL doCPUWork workTime (i + 1) s)
         else Inl TypeError)
      else Inr s)"
  by pat_completeness auto
termination
  by (relation "measure (\<lambda>(PL, d, w, i, s). PL - i)") auto

declare scan_runningQueues.simps [simp del]

text \<open>
  One pass through the body of the \<^verbatim>\<open>while (true)\<close> of \<^verbatim>\<open>run\<close>, up to the test of
  \<^verbatim>\<open>allEmpty\<close>; \<open>time\<close> is what \<^verbatim>\<open>Date.now()\<close> returns in this pass.
\<close>

definition run_iteration ::
  "nat \<Rightarrow> (int \<Rightarrow> 'p Scheduler \<Rightarrow> error + 'p Scheduler)
     \<Rightarrow> (nat \<Rightarrow> int \<Rightarrow> 'p Scheduler \<Rightarrow> error + 'p Scheduler)
     \<Rightarrow> int \<Rightarrow> 'p Scheduler \<Rightarrow> error + 'p Scheduler" where
  "run_iteration PL doBlockingWork doCPUWork time s =
     (let workTime = time - clock s;
          s1 = s\<lparr>clock := time\<rparr>
      in case (if \<not> isEmpty (blockingQueue s1) then doBlockingWork workTime s1 else Inr s1) of
           Inl e \<Rightarrow> Inl e
         | Inr s2 \<Rightarrow> scan_runningQueues PL doCPUWork workTime 0 s2)"

text \<open>
  The loop of \<^verbatim>\<open>run\<close>. \<open>now k\<close> is the reading of \<^verbatim>\<open>Date.now()\<close> in pass \<open>k\<close>. The
  loop may go on forever: then the value is \<open>None\<close>. An exception ends it with \<open>Inl\<close>.
  The message that \<^verbatim>\<open>run\<close> logs before it leaves the loop is not part of the state.
\<close>

partial_function (option) run ::
  "nat \<Rightarrow> (int \<Rightarrow> 'p Scheduler \<Rightarrow> error + 'p Scheduler)
     \<Rightarrow> (nat \<Rightarrow> int \<Rightarrow> 'p Scheduler \<Rightarrow> error + 'p Scheduler)
     \<Rightarrow> (nat \<Rightarrow> int) \<Rightarrow> nat \<Rightarrow> 'p Scheduler \<Rightarrow> (error + 'p Scheduler) option" where
  "run PL doBlockingWork doCPUWork now k s =
     (case run_iteration PL doBlockingWork doCPUWork (now k) s of
        Inl e \<Rightarrow> Some (Inl e)
      | Inr s' \<Rightarrow>
          (case allEmpty s' of
             (b, s'') \<Rightarrow>
               if b then Some (Inr s'')
               else run PL doBlockingWork doCPUWork now (k + 1) s''))"

declare run.simps [code]

text \<open>The two accessors \<^verbatim>\<open>_getCPUQueue\<close> and \<^verbatim>\<open>_getBlockingQueue\<close> of the tests.\<close>

definition getCPUQueue :: "'p Scheduler \<Rightarrow> nat \<Rightarrow> 'p Queue option" where
  "getCPUQueue s lvl =
     (if lvl < length (runningQueues s) then Some (runningQueues s ! lvl) else None)"

definition getBlockingQueue :: "'p Scheduler \<Rightarrow> 'p Queue" where
  "getBlockingQueue s = blockingQueue s"

section \<open>The work of a queue, from the spec\<close>

text \<open>
  Modelled from the spec: a process, the external collaborator of section 3: an
  identifier, the remaining CPU burst and the remaining blocking time.
\<close>

record process =
  pid :: nat
  cpuTime :: int
  blockingTime :: int

text \<open>
  Modelled from the spec: \<^verbatim>\<open>Queue.doCPUWork(workTime)\<close> of \<^verbatim>\<open>Queue.js\<close>, for the CPU queue
  at index \<open>i\<close>. With a work time of zero nothing moves and no interrupt fires. Otherwise
  the head process is dequeued and runs for at most \<open>min(quantum, workTime)\<close>: a process
  with nothing left is dropped, one whose burst is used up and that has blocking time
  left raises \<^verbatim>\<open>PROCESS_BLOCKED\<close> (as \<open>Q\<close> does in the second scenario of the spec), one
  with CPU time left raises \<^verbatim>\<open>LOWER_PRIORITY\<close>. Both interrupts go to
  \<^verbatim>\<open>handleInterrupt\<close> with this queue as the source. A queue with no process cannot
  dequeue and fails.
\<close>

definition Queue_doCPUWork ::
  "nat \<Rightarrow> nat \<Rightarrow> int \<Rightarrow> process Scheduler \<Rightarrow> error + process Scheduler" where
  "Queue_doCPUWork PL i workTime s =
     (if i < length (runningQueues s) then
        (let q = runningQueues s ! i in
         case processes q of
           [] \<Rightarrow> Inl EmptyQueue
         | p # ps \<Rightarrow>
             if workTime = 0 then Inr s
             else
               let granted = min (quantum q) workTime;
                   used = min granted (cpuTime p);
                   p' = p\<lparr>cpuTime := cpuTime p - used\<rparr>;
                   s' = s\<lparr>runningQueues := (runningQueues s)[i := q\<lparr>processes := ps\<rparr>]\<rparr>
               in if cpuTime p' = 0 \<and> blockingTime p' = 0 then Inr s'
                  else if cpuTime p' = 0 then handleInterrupt PL s' q p' PROCESS_BLOCKED
                  else handleInterrupt PL s' q p' LOWER_PRIORITY)
      else Inl TypeError)"

text \<open>
  Modelled from the spec: \<^verbatim>\<open>Queue.doBlockingWork(workTime)\<close> of \<^verbatim>\<open>Queue.js\<close>, for the
  blocking queue. With a work time of zero nothing moves. Otherwise the head process is
  dequeued and its blocking phase advances by \<open>workTime\<close> (the remaining time never goes
  below zero): a finished phase raises \<^verbatim>\<open>PROCESS_READY\<close>, an unfinished one raises
  \<^verbatim>\<open>LOWER_PRIORITY\<close> with the blocking queue as its source.
\<close>

definition Queue_doBlockingWork ::
  "nat \<Rightarrow> int \<Rightarrow> process Scheduler \<Rightarrow> error + process Scheduler" where
  "Queue_doBlockingWork PL workTime s =
     (let q = blockingQueue s in
      case processes q of
        [] \<Rightarrow> Inl EmptyQueue
      | p # ps \<Rightarrow>
          if workTime = 0 then Inr s
          else
            let p' = p\<lparr>blockingTime := max 0 (blockingTime p - workTime)\<rparr>;
                s' = s\<lparr>blockingQueue := q\<lparr>processes := ps\<rparr>\<rparr>
            in if blockingTime p' = 0 then handleInterrupt PL s' q p' PROCESS_READY
               else handleInterrupt PL s' q p' LOWER_PRIORITY)"

section \<open>The queue topology\<close>

text \<open>
  What the constructor fixes for a queue: its quantum, its priority level and its type.
  The topology of a scheduler is that of its blocking queue and of its CPU queues, in
  order.
\<close>

definition shape :: "'p Queue \<Rightarrow> int \<times> int \<times> QueueType" where
  "shape q = (quantum q, priorityLevel q, queueType q)"

definition topology :: "'p Scheduler \<Rightarrow> (int \<times> int \<times> QueueType) \<times> (int \<times> int \<times> QueueType) list" where
  "topology s = (shape (blockingQueue s), map shape (runningQueues s))"

section \<open>Example schedulers\<close>

text \<open>
  The process \<open>P\<close> of the first scenario of the spec (a CPU burst of 25, no blocking), and
  a process that has used its CPU burst and has 20 of blocking time left, as \<open>Q\<close> of the
  second scenario once it is blocked.
\<close>

definition P25 :: process where
  "P25 = \<lparr>pid = 1, cpuTime = 25, blockingTime = 0\<rparr>"

definition Q20 :: process where
  "Q20 = \<lparr>pid = 2, cpuTime = 0, blockingTime = 20\<rparr>"

text \<open>
  A scheduler of three priority levels, as built by the constructor, holding the given
  processes in its blocking queue and in its three CPU queues.
\<close>

definition example_scheduler ::
  "int \<Rightarrow> process list \<Rightarrow> process list \<Rightarrow> process list \<Rightarrow> process list \<Rightarrow> process Scheduler" where
  "example_scheduler t b q0 q1 q2 =
     \<lparr>clock = t,
      blockingQueue = (new_Queue 50 0 BLOCKING_QUEUE)\<lparr>processes := b\<rparr>,
      runningQueues = [(new_Queue 10 0 CPU_QUEUE)\<lparr>processes := q0\<rparr>,
                       (new_Queue 30 1 CPU_QUEUE)\<lparr>processes := q1\<rparr>,
                       (new_Queue 50 2 CPU_QUEUE)\<lparr>processes := q2\<rparr>]\<rparr>"

text \<open>
  A scheduler built with \<open>PRIORITY_LEVELS = 0\<close>: it has no CPU queue, and \<open>Q\<close> waits in its
  blocking queue.
\<close>

definition no_CPU_queues :: "process Scheduler" where
  "no_CPU_queues =
     \<lparr>clock = 0,
      blockingQueue = (new_Queue 50 0 BLOCKING_QUEUE)\<lparr>processes := [Q20]\<rparr>,
      runningQueues = []\<rparr>"



section \<open>Outstanding work and progress\<close>













definition every_10ms :: "nat \<Rightarrow> int" where
  "every_10ms k = 10 * int k"

section \<open>Submitting a process\<close>

lemma constructor_loop_eq:
  "constructor_loop PL i qs =
     qs @ map (\<lambda>j. new_Queue (10 + int j * 20) (int j) CPU_QUEUE) [i..<PL]"
proof (induction PL i qs rule: constructor_loop.induct)
  case (1 PL i qs)
  show ?case
  proof (cases "i < PL")
    case True
    with "1" show ?thesis
      by (subst constructor_loop.simps) (simp add: upt_conv_Cons)
  next
    case False
    then show ?thesis
      by (subst constructor_loop.simps) simp
  qed
qed

lemma runningQueues_constructor:
  "runningQueues (Scheduler_constructor PL t) =
     map (\<lambda>j. new_Queue (10 + int j * 20) (int j) CPU_QUEUE) [0..<PL]"
  by (simp add: Scheduler_constructor_def constructor_loop_eq)

text \<open>
  C5. For every process \<open>p\<close>, \<^verbatim>\<open>addNewProcess(p)\<close> puts \<open>p\<close> at the tail of the CPU queue
  of priority level 0 and into no other queue: the blocking queue and the CPU queues of
  the levels 1 to \<open>PRIORITY_LEVELS - 1\<close> are unchanged (and so are the clock and the
  number of queues). The scheduler has its \<open>PRIORITY_LEVELS\<close> queues, at least one.
\<close>

theorem addNewProcess_level0:
  assumes "length (runningQueues s) = PL" and "0 < PL"
  shows "\<exists>s' q0 q0'. addNewProcess s p = Inr s'
           \<and> getCPUQueue s 0 = Some q0 \<and> getCPUQueue s' 0 = Some q0'
           \<and> q0' = q0\<lparr>processes := processes q0 @ [p]\<rparr>
           \<and> (\<forall>i. 1 \<le> i \<and> i \<le> PL - 1 \<longrightarrow> getCPUQueue s' i = getCPUQueue s i)
           \<and> length (runningQueues s') = PL
           \<and> getBlockingQueue s' = getBlockingQueue s
           \<and> clock s' = clock s"
  using assms
  by (auto simp: addNewProcess_def runningQueues_enqueue_def getCPUQueue_def
      getBlockingQueue_def enqueue_def)

theorem addNewProcess_level0_witness:
  "length (runningQueues (Scheduler_constructor 3 0 :: nat Scheduler)) = 3 \<and> (0::nat) < 3
   \<and> (\<exists>s' q0 q0'. addNewProcess (Scheduler_constructor 3 0) (7::nat) = Inr s'
           \<and> getCPUQueue (Scheduler_constructor 3 0) 0 = Some q0 \<and> getCPUQueue s' 0 = Some q0'
           \<and> q0' = q0\<lparr>processes := processes q0 @ [7]\<rparr>
           \<and> (\<forall>i. 1 \<le> i \<and> i \<le> 3 - 1 \<longrightarrow> getCPUQueue s' i = getCPUQueue (Scheduler_constructor 3 0) i)
           \<and> length (runningQueues s') = 3
           \<and> getBlockingQueue s' = getBlockingQueue (Scheduler_constructor 3 0)
           \<and> clock s' = clock (Scheduler_constructor 3 0 :: nat Scheduler))"
proof -
  have len: "length (runningQueues (Scheduler_constructor 3 0 :: nat Scheduler)) = 3"
    by (simp add: runningQueues_constructor)
  have pos: "(0::nat) < 3" by simp
  show ?thesis
    using len pos addNewProcess_level0 [OF len pos, of 7] by simp
qed

section \<open>Routing interrupts\<close>

lemma interrupts_distinct:
  "PROCESS_BLOCKED \<noteq> PROCESS_READY" "PROCESS_BLOCKED \<noteq> LOWER_PRIORITY"
  "PROCESS_READY \<noteq> LOWER_PRIORITY" "PROCESS_READY \<noteq> PROCESS_BLOCKED"
  "LOWER_PRIORITY \<noteq> PROCESS_BLOCKED" "LOWER_PRIORITY \<noteq> PROCESS_READY"
  by (simp_all add: PROCESS_BLOCKED_def PROCESS_READY_def LOWER_PRIORITY_def)

text \<open>
  C6. For every process \<open>p\<close> and every source queue \<open>q\<close>,
  \<^verbatim>\<open>handleInterrupt(q, p, PROCESS_BLOCKED)\<close> puts \<open>p\<close> at the tail of the blocking
  queue, whatever \<open>q\<close> is; the CPU queues and the clock stay as they are.
\<close>

theorem handleInterrupt_PROCESS_BLOCKED:
  "\<exists>s'. handleInterrupt PL s q p PROCESS_BLOCKED = Inr s'
      \<and> getBlockingQueue s' =
          (getBlockingQueue s)\<lparr>processes := processes (getBlockingQueue s) @ [p]\<rparr>
      \<and> runningQueues s' = runningQueues s
      \<and> clock s' = clock s"
  by (simp add: handleInterrupt_def blockingQueue_enqueue_def enqueue_def getBlockingQueue_def)

text \<open>
  C3. For every process \<open>p\<close> and every source queue \<open>q\<close>,
  \<^verbatim>\<open>handleInterrupt(q, p, PROCESS_READY)\<close> puts \<open>p\<close> at the tail of the CPU queue of
  priority level 0, whatever \<open>q\<close> and its priority level are; every other queue stays
  as it is. The scheduler has its \<open>PRIORITY_LEVELS\<close> queues, at least one.
\<close>

theorem handleInterrupt_PROCESS_READY:
  assumes "length (runningQueues s) = PL" and "0 < PL"
  shows "\<exists>s' q0. handleInterrupt PL s q p PROCESS_READY = Inr s'
           \<and> getCPUQueue s 0 = Some q0
           \<and> getCPUQueue s' 0 = Some (q0\<lparr>processes := processes q0 @ [p]\<rparr>)
           \<and> (\<forall>i. 1 \<le> i \<longrightarrow> getCPUQueue s' i = getCPUQueue s i)
           \<and> getBlockingQueue s' = getBlockingQueue s
           \<and> clock s' = clock s"
  using assms
  by (auto simp: handleInterrupt_def interrupts_distinct addNewProcess_def
      runningQueues_enqueue_def getCPUQueue_def getBlockingQueue_def enqueue_def)

theorem handleInterrupt_PROCESS_READY_witness:
  "\<exists>s' q0. handleInterrupt 3 (Scheduler_constructor 3 0) (new_Queue 50 2 CPU_QUEUE) (7::nat)
             PROCESS_READY = Inr s'
           \<and> getCPUQueue (Scheduler_constructor 3 0) 0 = Some q0
           \<and> getCPUQueue s' 0 = Some (q0\<lparr>processes := processes q0 @ [7]\<rparr>)
           \<and> (\<forall>i. 1 \<le> i \<longrightarrow> getCPUQueue s' i = getCPUQueue (Scheduler_constructor 3 0) i)
           \<and> getBlockingQueue s' = getBlockingQueue (Scheduler_constructor 3 0)
           \<and> clock s' = clock (Scheduler_constructor 3 0 :: nat Scheduler)"
proof -
  have len: "length (runningQueues (Scheduler_constructor 3 0 :: nat Scheduler)) = 3"
    by (simp add: runningQueues_constructor)
  have pos: "(0::nat) < 3" by simp
  show ?thesis
    by (rule handleInterrupt_PROCESS_READY [OF len pos])
qed

text \<open>
  C8. For every process, every queue and every interrupt that is none of
  \<^verbatim>\<open>PROCESS_BLOCKED\<close>, \<^verbatim>\<open>PROCESS_READY\<close> and \<^verbatim>\<open>LOWER_PRIORITY\<close>, \<^verbatim>\<open>handleInterrupt\<close>
  does nothing: it returns without an error and the scheduler (blocking queue, CPU
  queues, clock) is the one it was given.
\<close>

theorem handleInterrupt_unknown:
  assumes "interrupt \<noteq> PROCESS_BLOCKED" and "interrupt \<noteq> PROCESS_READY"
    and "interrupt \<noteq> LOWER_PRIORITY"
  shows "handleInterrupt PL s q p interrupt = Inr s"
  using assms by (simp add: handleInterrupt_def)

theorem handleInterrupt_unknown_witness:
  "handleInterrupt 3 (Scheduler_constructor 3 0) (new_Queue 10 0 CPU_QUEUE) (7::nat)
     ''PROCESS_DONE'' = Inr (Scheduler_constructor 3 0)"
proof -
  have a: "''PROCESS_DONE'' \<noteq> PROCESS_BLOCKED" by (simp add: PROCESS_BLOCKED_def)
  have b: "''PROCESS_DONE'' \<noteq> PROCESS_READY" by (simp add: PROCESS_READY_def)
  have c: "''PROCESS_DONE'' \<noteq> LOWER_PRIORITY" by (simp add: LOWER_PRIORITY_def)
  show ?thesis by (rule handleInterrupt_unknown [OF a b c])
qed

text \<open>
  C2. For every process \<open>p\<close> and every queue \<open>q\<close> handed to \<^verbatim>\<open>handleInterrupt\<close> with
  \<^verbatim>\<open>LOWER_PRIORITY\<close>: if \<open>q\<close> is a CPU queue of priority level \<open>L \<ge> 0\<close>, then \<open>p\<close> goes to
  the tail of the CPU queue of level \<open>min (PRIORITY_LEVELS - 1) (L + 1)\<close> and to no other
  queue; that level is never above \<open>L\<close> in priority, and from the lowest level the
  process stays at the lowest level. If \<open>q\<close> is the blocking queue, \<open>p\<close> goes back to
  the tail of the blocking queue.
\<close>

theorem handleInterrupt_LOWER_PRIORITY:
  assumes "length (runningQueues s) = PL" and "0 < PL"
  shows "(getQueueType q = CPU_QUEUE \<longrightarrow> 0 \<le> getPriorityLevel q \<longrightarrow>
           (\<exists>s' k qk. int k = min (int PL - 1) (getPriorityLevel q + 1)
              \<and> handleInterrupt PL s q p LOWER_PRIORITY = Inr s'
              \<and> getCPUQueue s k = Some qk
              \<and> getCPUQueue s' k = Some (qk\<lparr>processes := processes qk @ [p]\<rparr>)
              \<and> (\<forall>i. i \<noteq> k \<longrightarrow> getCPUQueue s' i = getCPUQueue s i)
              \<and> getBlockingQueue s' = getBlockingQueue s
              \<and> (getPriorityLevel q \<le> int PL - 1 \<longrightarrow> getPriorityLevel q \<le> int k)
              \<and> (getPriorityLevel q = int PL - 1 \<longrightarrow> int k = int PL - 1)))
       \<and> (getQueueType q = BLOCKING_QUEUE \<longrightarrow>
           (\<exists>s'. handleInterrupt PL s q p LOWER_PRIORITY = Inr s'
              \<and> getBlockingQueue s' =
                  (getBlockingQueue s)\<lparr>processes := processes (getBlockingQueue s) @ [p]\<rparr>
              \<and> runningQueues s' = runningQueues s))"
proof (intro conjI impI)
  assume cpu: "getQueueType q = CPU_QUEUE" and nonneg: "0 \<le> getPriorityLevel q"
  define k where "k = nat (min (int PL - 1) (getPriorityLevel q + 1))"
  have k: "int k = min (int PL - 1) (getPriorityLevel q + 1)" "k < PL"
    using assms nonneg by (auto simp: k_def)
  let ?s' = "s\<lparr>runningQueues := (runningQueues s)[k := enqueue (runningQueues s ! k) p]\<rparr>"
  have run: "handleInterrupt PL s q p LOWER_PRIORITY = Inr ?s'"
    using assms nonneg cpu k
    by (simp add: handleInterrupt_def interrupts_distinct runningQueues_enqueue_def k_def)
  show "\<exists>s' k qk. int k = min (int PL - 1) (getPriorityLevel q + 1)
              \<and> handleInterrupt PL s q p LOWER_PRIORITY = Inr s'
              \<and> getCPUQueue s k = Some qk
              \<and> getCPUQueue s' k = Some (qk\<lparr>processes := processes qk @ [p]\<rparr>)
              \<and> (\<forall>i. i \<noteq> k \<longrightarrow> getCPUQueue s' i = getCPUQueue s i)
              \<and> getBlockingQueue s' = getBlockingQueue s
              \<and> (getPriorityLevel q \<le> int PL - 1 \<longrightarrow> getPriorityLevel q \<le> int k)
              \<and> (getPriorityLevel q = int PL - 1 \<longrightarrow> int k = int PL - 1)"
    apply (rule exI [of _ ?s'], rule exI [of _ k], rule exI [of _ "runningQueues s ! k"])
    using assms k run
    by (auto simp: getCPUQueue_def getBlockingQueue_def enqueue_def)
next
  assume "getQueueType q = BLOCKING_QUEUE"
  then show "\<exists>s'. handleInterrupt PL s q p LOWER_PRIORITY = Inr s'
              \<and> getBlockingQueue s' =
                  (getBlockingQueue s)\<lparr>processes := processes (getBlockingQueue s) @ [p]\<rparr>
              \<and> runningQueues s' = runningQueues s"
    by (simp add: handleInterrupt_def interrupts_distinct blockingQueue_enqueue_def
        enqueue_def getBlockingQueue_def)
qed

theorem handleInterrupt_LOWER_PRIORITY_witness:
  "(getQueueType (new_Queue 50 2 CPU_QUEUE :: nat Queue) = CPU_QUEUE
     \<and> 0 \<le> getPriorityLevel (new_Queue 50 2 CPU_QUEUE :: nat Queue)
     \<and> (\<exists>s' k qk. int k = min (int 3 - 1) (getPriorityLevel (new_Queue 50 2 CPU_QUEUE :: nat Queue) + 1)
              \<and> handleInterrupt 3 (Scheduler_constructor 3 0) (new_Queue 50 2 CPU_QUEUE) (7::nat)
                    LOWER_PRIORITY = Inr s'
              \<and> getCPUQueue (Scheduler_constructor 3 0) k = Some qk
              \<and> getCPUQueue s' k = Some (qk\<lparr>processes := processes qk @ [7]\<rparr>)
              \<and> (\<forall>i. i \<noteq> k \<longrightarrow> getCPUQueue s' i = getCPUQueue (Scheduler_constructor 3 0) i)
              \<and> getBlockingQueue s' = getBlockingQueue (Scheduler_constructor 3 0)
              \<and> (getPriorityLevel (new_Queue 50 2 CPU_QUEUE :: nat Queue) \<le> int 3 - 1
                    \<longrightarrow> getPriorityLevel (new_Queue 50 2 CPU_QUEUE :: nat Queue) \<le> int k)
              \<and> (getPriorityLevel (new_Queue 50 2 CPU_QUEUE :: nat Queue) = int 3 - 1
                    \<longrightarrow> int k = int 3 - 1)))
   \<and> (getQueueType (new_Queue 50 0 BLOCKING_QUEUE :: nat Queue) = BLOCKING_QUEUE
     \<and> (\<exists>s'. handleInterrupt 3 (Scheduler_constructor 3 0) (new_Queue 50 0 BLOCKING_QUEUE) (7::nat)
                 LOWER_PRIORITY = Inr s'
              \<and> getBlockingQueue s' =
                  (getBlockingQueue (Scheduler_constructor 3 0))
                    \<lparr>processes := processes (getBlockingQueue (Scheduler_constructor 3 0)) @ [7]\<rparr>
              \<and> runningQueues s' = runningQueues (Scheduler_constructor 3 0)))"
proof -
  have len: "length (runningQueues (Scheduler_constructor 3 0 :: nat Scheduler)) = 3"
    by (simp add: runningQueues_constructor)
  have pos: "(0::nat) < 3" by simp
  have cpu: "getQueueType (new_Queue 50 2 CPU_QUEUE :: nat Queue) = CPU_QUEUE"
    by (simp add: getQueueType_def new_Queue_def)
  have lvl: "0 \<le> getPriorityLevel (new_Queue 50 2 CPU_QUEUE :: nat Queue)"
    by (simp add: getPriorityLevel_def new_Queue_def)
  have blk: "getQueueType (new_Queue 50 0 BLOCKING_QUEUE :: nat Queue) = BLOCKING_QUEUE"
    by (simp add: getQueueType_def new_Queue_def)
  note a = handleInterrupt_LOWER_PRIORITY [OF len pos, of "new_Queue 50 2 CPU_QUEUE" 7,
      THEN conjunct1, rule_format, OF cpu lvl]
  note b = handleInterrupt_LOWER_PRIORITY [OF len pos, of "new_Queue 50 0 BLOCKING_QUEUE" 7,
      THEN conjunct2, rule_format, OF blk]
  show ?thesis
    using cpu lvl blk a b by blast
qed

text \<open>
  C9. For each of the three interrupts \<^verbatim>\<open>PROCESS_BLOCKED\<close>, \<^verbatim>\<open>PROCESS_READY\<close> and
  \<^verbatim>\<open>LOWER_PRIORITY\<close>, \<^verbatim>\<open>handleInterrupt\<close> returns without an error and appends the
  process to exactly one queue: either to the blocking queue, with every CPU queue as it
  was, or to one CPU queue, with the blocking queue and every other CPU queue as they
  were. The clock is unchanged, and so are the quantum, level and type of every queue.
\<close>

theorem handleInterrupt_exactly_one_queue:
  assumes "length (runningQueues s) = PL" and "0 < PL" and "0 \<le> getPriorityLevel q"
    and "interrupt = PROCESS_BLOCKED \<or> interrupt = PROCESS_READY \<or> interrupt = LOWER_PRIORITY"
  shows "\<exists>s'. handleInterrupt PL s q p interrupt = Inr s'
           \<and> clock s' = clock s
           \<and> ((blockingQueue s' =
                  (blockingQueue s)\<lparr>processes := processes (blockingQueue s) @ [p]\<rparr>
                \<and> runningQueues s' = runningQueues s)
              \<or> (blockingQueue s' = blockingQueue s
                \<and> (\<exists>k<PL. runningQueues s' =
                      (runningQueues s)
                        [k := (runningQueues s ! k)
                                \<lparr>processes := processes (runningQueues s ! k) @ [p]\<rparr>])))"
proof -
  let ?B = "s\<lparr>blockingQueue := enqueue (blockingQueue s) p\<rparr>"
  let ?R = "\<lambda>k. s\<lparr>runningQueues := (runningQueues s)[k := enqueue (runningQueues s ! k) p]\<rparr>"
  define k where "k = nat (min (int PL - 1) (getPriorityLevel q + 1))"
  have k: "k < PL" "0 \<le> min (int PL - 1) (getPriorityLevel q + 1)"
    using assms by (auto simp: k_def)
  have "handleInterrupt PL s q p interrupt = Inr ?B
      \<or> (\<exists>j<PL. handleInterrupt PL s q p interrupt = Inr (?R j))"
  proof -
    consider "interrupt = PROCESS_BLOCKED" | "interrupt = PROCESS_READY"
      | "interrupt = LOWER_PRIORITY" "getQueueType q = CPU_QUEUE"
      | "interrupt = LOWER_PRIORITY" "getQueueType q \<noteq> CPU_QUEUE"
      using assms(4) by blast
    then show ?thesis
    proof cases
      case 1
      then show ?thesis
        by (simp add: handleInterrupt_def blockingQueue_enqueue_def)
    next
      case 2
      then have "handleInterrupt PL s q p interrupt = Inr (?R 0)"
        using assms(1,2)
        by (simp add: handleInterrupt_def interrupts_distinct addNewProcess_def
            runningQueues_enqueue_def)
      then show ?thesis using assms(2) by blast
    next
      case 3
      then have "handleInterrupt PL s q p interrupt = Inr (?R k)"
        using assms(1) k
        by (simp add: handleInterrupt_def interrupts_distinct runningQueues_enqueue_def k_def)
      then show ?thesis using k(1) by blast
    next
      case 4
      then show ?thesis
        by (simp add: handleInterrupt_def interrupts_distinct blockingQueue_enqueue_def)
    qed
  qed
  then show ?thesis
  proof
    assume "handleInterrupt PL s q p interrupt = Inr ?B"
    then show ?thesis by (simp add: enqueue_def)
  next
    assume "\<exists>j<PL. handleInterrupt PL s q p interrupt = Inr (?R j)"
    then obtain j where "j < PL" "handleInterrupt PL s q p interrupt = Inr (?R j)"
      by blast
    then show ?thesis
      by (auto simp: enqueue_def intro!: exI [of _ j])
  qed
qed

theorem handleInterrupt_exactly_one_queue_witness:
  "\<exists>s'. handleInterrupt 3 (Scheduler_constructor 3 0) (new_Queue 30 1 CPU_QUEUE) (7::nat)
            LOWER_PRIORITY = Inr s'
           \<and> clock s' = clock (Scheduler_constructor 3 0 :: nat Scheduler)
           \<and> ((blockingQueue s' =
                  (blockingQueue (Scheduler_constructor 3 0))
                    \<lparr>processes := processes (blockingQueue (Scheduler_constructor 3 0)) @ [7]\<rparr>
                \<and> runningQueues s' = runningQueues (Scheduler_constructor 3 0))
              \<or> (blockingQueue s' = blockingQueue (Scheduler_constructor 3 0)
                \<and> (\<exists>k<3. runningQueues s' =
                      (runningQueues (Scheduler_constructor 3 0))
                        [k := (runningQueues (Scheduler_constructor 3 0) ! k)
                                \<lparr>processes :=
                                   processes (runningQueues (Scheduler_constructor 3 0) ! k) @ [7]\<rparr>])))"
proof -
  have len: "length (runningQueues (Scheduler_constructor 3 0 :: nat Scheduler)) = 3"
    by (simp add: runningQueues_constructor)
  have pos: "(0::nat) < 3" by simp
  have lvl: "0 \<le> getPriorityLevel (new_Queue 30 1 CPU_QUEUE :: nat Queue)"
    by (simp add: getPriorityLevel_def new_Queue_def)
  have intr: "LOWER_PRIORITY = PROCESS_BLOCKED \<or> LOWER_PRIORITY = PROCESS_READY
      \<or> LOWER_PRIORITY = LOWER_PRIORITY"
    by simp
  show ?thesis
    by (rule handleInterrupt_exactly_one_queue [OF len pos lvl intr])
qed

section \<open>Evaluating the examples\<close>

lemma constructor_3: "Scheduler_constructor 3 t =
     \<lparr>clock = t,
      blockingQueue = new_Queue 50 0 BLOCKING_QUEUE,
      runningQueues = [new_Queue 10 0 CPU_QUEUE,
                       new_Queue 30 1 CPU_QUEUE, new_Queue 50 2 CPU_QUEUE]\<rparr>"
  by (simp add: Scheduler_constructor_def constructor_loop_eq upt_conv_Cons)

lemma example_scheduler_constructor: "example_scheduler t [] [] [] [] = Scheduler_constructor 3 t"
  by (simp add: constructor_3 example_scheduler_def new_Queue_def)

lemma addNewProcess_example:
  "addNewProcess (example_scheduler t b q0 q1 q2) p = Inr (example_scheduler t b (q0 @ [p]) q1 q2)"
  by (simp add: example_scheduler_def addNewProcess_def runningQueues_enqueue_def enqueue_def)

lemma run_P25:
  "run 3 (Queue_doBlockingWork 3) (Queue_doCPUWork 3) every_10ms 0
     (example_scheduler 0 [] [P25] [] [])
     = Some (Inr (Scheduler_constructor 3 30))"
  by code_simp




section \<open>Emptiness of all queues\<close>

text \<open>
  C7. \<^verbatim>\<open>allEmpty()\<close> returns true exactly when the blocking queue is empty and each of
  the \<open>PRIORITY_LEVELS\<close> CPU queues is empty, and the scheduler after the call (its queues
  with their contents, its clock) is the scheduler before the call.
\<close>

theorem allEmpty_iff:
  assumes "length (runningQueues s) = PL"
  shows "fst (allEmpty s) =
           (isEmpty (getBlockingQueue s) \<and> (\<forall>i<PL. \<exists>q. getCPUQueue s i = Some q \<and> isEmpty q))
         \<and> snd (allEmpty s) = s"
  using assms
  by (auto simp: allEmpty_def list_all_length getCPUQueue_def getBlockingQueue_def)

theorem allEmpty_iff_witness:
  "length (runningQueues (example_scheduler 0 [] [P25] [] [])) = 3
   \<and> fst (allEmpty (example_scheduler 0 [] [P25] [] [])) =
           (isEmpty (getBlockingQueue (example_scheduler 0 [] [P25] [] []))
            \<and> (\<forall>i<3. \<exists>q. getCPUQueue (example_scheduler 0 [] [P25] [] []) i = Some q \<and> isEmpty q))
   \<and> snd (allEmpty (example_scheduler 0 [] [P25] [] [])) = example_scheduler 0 [] [P25] [] []
   \<and> \<not> fst (allEmpty (example_scheduler 0 [] [P25] [] []))
   \<and> fst (allEmpty (Scheduler_constructor 3 0 :: process Scheduler))"
proof -
  have len: "length (runningQueues (example_scheduler 0 [] [P25] [] [])) = 3"
    by (simp add: example_scheduler_def)
  have a: "\<not> fst (allEmpty (example_scheduler 0 [] [P25] [] []))"
    by (simp add: allEmpty_def example_scheduler_def isEmpty_def new_Queue_def)
  have b: "fst (allEmpty (Scheduler_constructor 3 0 :: process Scheduler))"
    by (simp add: allEmpty_def constructor_3 isEmpty_def new_Queue_def)
  show ?thesis
    using len a b allEmpty_iff [OF len] by simp
qed

section \<open>One pass of the dispatch loop\<close>

lemma scan_first_nonempty:
  assumes "k < PL" and "PL \<le> length (runningQueues s)"
    and "\<not> isEmpty (runningQueues s ! k)"
    and "\<forall>j. i \<le> j \<and> j < k \<longrightarrow> isEmpty (runningQueues s ! j)"
    and "i \<le> k"
  shows "scan_runningQueues PL doC w i s = doC k w s"
  using assms(4,5)
proof (induction "k - i" arbitrary: i)
  case 0
  then have "i = k" by simp
  with assms(1-3) show ?case
    by (subst scan_runningQueues.simps) simp
next
  case (Suc n)
  then have lt: "i < k" and e: "isEmpty (runningQueues s ! i)" by auto
  have "scan_runningQueues PL doC w (i + 1) s = doC k w s"
    using Suc.hyps(2) Suc.prems lt by (intro Suc.hyps(1)) auto
  with lt e assms(1,2) show ?case
    by (subst scan_runningQueues.simps) simp
qed

lemma scan_all_empty:
  assumes "PL \<le> length (runningQueues s)"
    and "\<forall>j. i \<le> j \<and> j < PL \<longrightarrow> isEmpty (runningQueues s ! j)"
  shows "scan_runningQueues PL doC w i s = Inr s"
  using assms(2)
proof (induction "PL - i" arbitrary: i)
  case 0
  then show ?case by (subst scan_runningQueues.simps) simp
next
  case (Suc n)
  then have lt: "i < PL" and e: "isEmpty (runningQueues s ! i)" by auto
  have "scan_runningQueues PL doC w (i + 1) s = Inr s"
    using Suc.hyps(2) Suc.prems by (intro Suc.hyps(1)) auto
  with lt e assms(1) show ?case
    by (subst scan_runningQueues.simps) simp
qed

text \<open>
  C1. In every pass of \<^verbatim>\<open>run()\<close>, with \<open>workTime\<close> the reading of the clock minus the
  stored clock: the blocking queue does blocking work for \<open>workTime\<close> first, if and only
  if it is not empty (an exception of that work ends the pass). Then, in the scheduler as
  the blocking work leaves it, the CPU queue of lowest index that is not empty does CPU
  work for the same \<open>workTime\<close>, and the pass does nothing else: no queue of a higher
  index is asked to work; if every CPU queue is empty, no CPU queue works. The array
  holds the \<open>PRIORITY_LEVELS\<close> queues that the scan reads.
\<close>

theorem run_iteration_services:
  "let workTime = time - clock s;
       s1 = s\<lparr>clock := time\<rparr>;
       blocking = (if isEmpty (getBlockingQueue s) then Inr s1 else doBlockingWork workTime s1)
   in (\<forall>e. blocking = Inl e \<longrightarrow> run_iteration PL doBlockingWork doCPUWork time s = Inl e)
    \<and> (\<forall>s2. blocking = Inr s2 \<and> PL \<le> length (runningQueues s2) \<longrightarrow>
          ((\<forall>i<PL. isEmpty (runningQueues s2 ! i)) \<longrightarrow>
             run_iteration PL doBlockingWork doCPUWork time s = Inr s2)
        \<and> (\<forall>i<PL. \<not> isEmpty (runningQueues s2 ! i)
                    \<and> (\<forall>j<i. isEmpty (runningQueues s2 ! j)) \<longrightarrow>
             run_iteration PL doBlockingWork doCPUWork time s = doCPUWork i workTime s2))"
proof -
  let ?w = "time - clock s" and ?s1 = "s\<lparr>clock := time\<rparr>"
  let ?B = "if isEmpty (getBlockingQueue s) then Inr ?s1 else doBlockingWork ?w ?s1"
  have it: "run_iteration PL doBlockingWork doCPUWork time s =
      (case ?B of Inl e \<Rightarrow> Inl e | Inr s2 \<Rightarrow> scan_runningQueues PL doCPUWork ?w 0 s2)"
    by (simp add: run_iteration_def Let_def getBlockingQueue_def)
  have a: "run_iteration PL doBlockingWork doCPUWork time s = Inl e" if "?B = Inl e" for e
    using that it by simp
  have b: "run_iteration PL doBlockingWork doCPUWork time s = Inr s2"
    if "?B = Inr s2" "PL \<le> length (runningQueues s2)" "\<forall>i<PL. isEmpty (runningQueues s2 ! i)"
    for s2
    using that it scan_all_empty [of PL s2 0 doCPUWork ?w] by simp
  have c: "run_iteration PL doBlockingWork doCPUWork time s = doCPUWork i ?w s2"
    if "?B = Inr s2" "PL \<le> length (runningQueues s2)" "i < PL"
      "\<not> isEmpty (runningQueues s2 ! i)" "\<forall>j<i. isEmpty (runningQueues s2 ! j)"
    for s2 i
    using that it scan_first_nonempty [of i PL s2 0 doCPUWork ?w] by simp
  show ?thesis
    unfolding Let_def using a b c by blast
qed

theorem run_iteration_services_witness:
  "(\<not> isEmpty (getBlockingQueue (example_scheduler 0 [Q20] [] [P25] []))
   \<and> Queue_doBlockingWork 3 (20 - 0) (example_scheduler 20 [Q20] [] [P25] [])
       = Inr (example_scheduler 20 [] [Q20\<lparr>blockingTime := 0\<rparr>] [P25] [])
   \<and> 3 \<le> length (runningQueues (example_scheduler 20 [] [Q20\<lparr>blockingTime := 0\<rparr>] [P25] []))
   \<and> \<not> isEmpty (runningQueues (example_scheduler 20 [] [Q20\<lparr>blockingTime := 0\<rparr>] [P25] []) ! 0)
   \<and> run_iteration 3 (Queue_doBlockingWork 3) (Queue_doCPUWork 3) 20
         (example_scheduler 0 [Q20] [] [P25] [])
       = Queue_doCPUWork 3 0 (20 - 0) (example_scheduler 20 [] [Q20\<lparr>blockingTime := 0\<rparr>] [P25] [])
   \<and> Queue_doCPUWork 3 0 (20 - 0) (example_scheduler 20 [] [Q20\<lparr>blockingTime := 0\<rparr>] [P25] [])
       = Inr (example_scheduler 20 [] [] [P25] []))
   \<and> (isEmpty (getBlockingQueue (example_scheduler 0 [] [] [] []))
      \<and> 3 \<le> length (runningQueues (example_scheduler 20 [] [] [] []))
      \<and> isEmpty (runningQueues (example_scheduler 20 [] [] [] []) ! 0)
      \<and> isEmpty (runningQueues (example_scheduler 20 [] [] [] []) ! 1)
      \<and> isEmpty (runningQueues (example_scheduler 20 [] [] [] []) ! 2)
      \<and> run_iteration 3 (Queue_doBlockingWork 3) (Queue_doCPUWork 3) 20
           (example_scheduler 0 [] [] [] []) = Inr (example_scheduler 20 [] [] [] []))
   \<and> (\<not> isEmpty (getBlockingQueue no_CPU_queues)
      \<and> Queue_doBlockingWork 0 (20 - 0) (no_CPU_queues\<lparr>clock := 20\<rparr>) = Inl TypeError
      \<and> run_iteration 0 (Queue_doBlockingWork 0) (Queue_doCPUWork 0) 20 no_CPU_queues
           = Inl TypeError)"
proof -
  let ?s = "example_scheduler 0 [Q20] [] [P25] []"
  let ?s2 = "example_scheduler 20 [] [Q20\<lparr>blockingTime := 0\<rparr>] [P25] []"
  have clk: "clock ?s = 0" "?s\<lparr>clock := 20\<rparr> = example_scheduler 20 [Q20] [] [P25] []"
    by (simp_all add: example_scheduler_def)
  have ne: "\<not> isEmpty (getBlockingQueue ?s)"
    by (simp add: example_scheduler_def getBlockingQueue_def isEmpty_def)
  have blk: "Queue_doBlockingWork 3 (20 - 0) (example_scheduler 20 [Q20] [] [P25] []) = Inr ?s2"
    by (simp add: Queue_doBlockingWork_def example_scheduler_def Q20_def Let_def
        handleInterrupt_def interrupts_distinct addNewProcess_def runningQueues_enqueue_def
        enqueue_def new_Queue_def)
  have len: "3 \<le> length (runningQueues ?s2)"
    by (simp add: example_scheduler_def)
  have ne0: "\<not> isEmpty (runningQueues ?s2 ! 0)"
    by (simp add: example_scheduler_def isEmpty_def)
  have cpu: "Queue_doCPUWork 3 0 (20 - 0) ?s2 = Inr (example_scheduler 20 [] [] [P25] [])"
    by (simp add: Queue_doCPUWork_def example_scheduler_def Q20_def Let_def new_Queue_def)
  have a: "run_iteration 3 (Queue_doBlockingWork 3) (Queue_doCPUWork 3) 20 ?s
      = Queue_doCPUWork 3 0 (20 - 0) ?s2"
    using run_iteration_services [of 20 ?s "Queue_doBlockingWork 3" 3 "Queue_doCPUWork 3"]
      clk ne blk len ne0
    by (simp add: Let_def)
  let ?e = "example_scheduler 0 [] [] [] []"
  have eclk: "clock ?e = 0" "?e\<lparr>clock := 20\<rparr> = example_scheduler 20 [] [] [] []"
    by (simp_all add: example_scheduler_def)
  have e0: "isEmpty (getBlockingQueue ?e)"
    by (simp add: example_scheduler_def getBlockingQueue_def isEmpty_def new_Queue_def)
  have elen: "3 \<le> length (runningQueues (example_scheduler 20 [] [] [] []))"
    by (simp add: example_scheduler_def)
  have eall: "\<forall>i<3. isEmpty (runningQueues (example_scheduler 20 [] [] [] []) ! i)"
    by (simp add: example_scheduler_def isEmpty_def new_Queue_def nth_Cons' )
  have b: "run_iteration 3 (Queue_doBlockingWork 3) (Queue_doCPUWork 3) 20 ?e
      = Inr (example_scheduler 20 [] [] [] [])"
    using run_iteration_services [of 20 ?e "Queue_doBlockingWork 3" 3 "Queue_doCPUWork 3"]
      eclk e0 elen eall
    by (simp add: Let_def)
  have nclk: "clock no_CPU_queues = 0" by (simp add: no_CPU_queues_def)
  have n0: "\<not> isEmpty (getBlockingQueue no_CPU_queues)"
    by (simp add: no_CPU_queues_def getBlockingQueue_def isEmpty_def)
  have nblk: "Queue_doBlockingWork 0 (20 - 0) (no_CPU_queues\<lparr>clock := 20\<rparr>) = Inl TypeError"
    by (simp add: Queue_doBlockingWork_def no_CPU_queues_def Q20_def Let_def
        handleInterrupt_def interrupts_distinct addNewProcess_def runningQueues_enqueue_def)
  have c: "run_iteration 0 (Queue_doBlockingWork 0) (Queue_doCPUWork 0) 20 no_CPU_queues
      = Inl TypeError"
    using run_iteration_services [of 20 no_CPU_queues "Queue_doBlockingWork 0" 0 "Queue_doCPUWork 0"]
      nclk n0 nblk
    by (simp add: Let_def)
  have e3: "isEmpty (runningQueues (example_scheduler 20 [] [] [] []) ! 0)"
    "isEmpty (runningQueues (example_scheduler 20 [] [] [] []) ! 1)"
    "isEmpty (runningQueues (example_scheduler 20 [] [] [] []) ! 2)"
    using eall by simp_all
  from ne blk len ne0 cpu a e0 elen e3 b n0 nblk c show ?thesis by simp
qed

section \<open>The topology is fixed\<close>

lemma shape_enqueue: "shape (enqueue q p) = shape q"
  by (simp add: shape_def enqueue_def)

lemma topology_clock: "topology (s\<lparr>clock := t\<rparr>) = topology s"
  by (simp add: topology_def)

lemma map_shape_update:
  "shape y = shape (xs ! i) \<Longrightarrow> map shape (xs[i := y]) = map shape xs"
  by (metis list_update_id map_update)

lemma topology_runningQueues_enqueue:
  "runningQueues_enqueue s k p = Inr s' \<Longrightarrow> topology s' = topology s"
  by (auto simp: runningQueues_enqueue_def topology_def map_shape_update shape_enqueue
      split: if_splits)

lemma topology_blockingQueue_enqueue: "topology (blockingQueue_enqueue s p) = topology s"
  by (simp add: blockingQueue_enqueue_def topology_def shape_enqueue)

lemma topology_addNewProcess: "addNewProcess s p = Inr s' \<Longrightarrow> topology s' = topology s"
  by (simp add: addNewProcess_def topology_runningQueues_enqueue)

lemma topology_handleInterrupt:
  "handleInterrupt PL s q p interrupt = Inr s' \<Longrightarrow> topology s' = topology s"
  by (auto simp: handleInterrupt_def topology_runningQueues_enqueue
      topology_blockingQueue_enqueue topology_addNewProcess split: if_splits)

lemma topology_dequeue_running:
  "i < length (runningQueues s) \<Longrightarrow>
   topology (s\<lparr>runningQueues := (runningQueues s)[i := (runningQueues s ! i)\<lparr>processes := ps\<rparr>]\<rparr>)
     = topology s"
  by (simp add: topology_def map_shape_update shape_def)

lemma topology_dequeue_blocking:
  "topology (s\<lparr>blockingQueue := (blockingQueue s)\<lparr>processes := ps\<rparr>\<rparr>) = topology s"
  by (simp add: topology_def shape_def)

lemma if_if_cases:
  "x = (if a then b else if c then d else e) \<Longrightarrow> x = b \<or> x = d \<or> x = e"
  by (simp split: if_splits)

lemma doCPUWork_Inr:
  assumes "Queue_doCPUWork PL i w s = Inr s'"
  shows "s' = s \<or> (\<exists>ps. i < length (runningQueues s) \<and>
           (s' = s\<lparr>runningQueues := (runningQueues s)[i := (runningQueues s ! i)\<lparr>processes := ps\<rparr>]\<rparr>
            \<or> (\<exists>p' x. handleInterrupt PL
                   (s\<lparr>runningQueues := (runningQueues s)[i := (runningQueues s ! i)\<lparr>processes := ps\<rparr>]\<rparr>)
                   (runningQueues s ! i) p' x = Inr s')))"
proof -
  from assms have i: "i < length (runningQueues s)"
    by (simp add: Queue_doCPUWork_def split: if_splits)
  from assms obtain p ps where ps: "processes (runningQueues s ! i) = p # ps"
    using i by (cases "processes (runningQueues s ! i)") (simp_all add: Queue_doCPUWork_def)
  show ?thesis
  proof (cases "w = 0")
    case True
    with assms i ps show ?thesis by (simp add: Queue_doCPUWork_def)
  next
    case False
    let ?s1 = "s\<lparr>runningQueues := (runningQueues s)[i := (runningQueues s ! i)\<lparr>processes := ps\<rparr>]\<rparr>"
    let ?p' = "p\<lparr>cpuTime := cpuTime p - min (min (quantum (runningQueues s ! i)) w) (cpuTime p)\<rparr>"
    have "Queue_doCPUWork PL i w s =
        (if cpuTime ?p' = 0 \<and> blockingTime ?p' = 0 then Inr ?s1
         else if cpuTime ?p' = 0 then handleInterrupt PL ?s1 (runningQueues s ! i) ?p' PROCESS_BLOCKED
         else handleInterrupt PL ?s1 (runningQueues s ! i) ?p' LOWER_PRIORITY)"
      using i ps False by (simp add: Queue_doCPUWork_def Let_def)
    from if_if_cases [OF this] assms have "s' = ?s1
        \<or> handleInterrupt PL ?s1 (runningQueues s ! i) ?p' PROCESS_BLOCKED = Inr s'
        \<or> handleInterrupt PL ?s1 (runningQueues s ! i) ?p' LOWER_PRIORITY = Inr s'"
      by auto
    with i show ?thesis by blast
  qed
qed

lemma topology_doCPUWork:
  assumes "Queue_doCPUWork PL i w s = Inr s'"
  shows "topology s' = topology s"
  using doCPUWork_Inr [OF assms]
  by (auto simp: topology_dequeue_running dest: topology_handleInterrupt)

lemma doBlockingWork_Inr:
  assumes "Queue_doBlockingWork PL w s = Inr s'"
  shows "s' = s \<or> (\<exists>ps p' x. handleInterrupt PL
                   (s\<lparr>blockingQueue := (blockingQueue s)\<lparr>processes := ps\<rparr>\<rparr>)
                   (blockingQueue s) p' x = Inr s')"
proof -
  from assms obtain p ps where ps: "processes (blockingQueue s) = p # ps"
    by (cases "processes (blockingQueue s)") (simp_all add: Queue_doBlockingWork_def)
  show ?thesis
  proof (cases "w = 0")
    case True
    with assms ps show ?thesis by (simp add: Queue_doBlockingWork_def)
  next
    case False
    let ?s1 = "s\<lparr>blockingQueue := (blockingQueue s)\<lparr>processes := ps\<rparr>\<rparr>"
    let ?p' = "p\<lparr>blockingTime := max 0 (blockingTime p - w)\<rparr>"
    have "Queue_doBlockingWork PL w s =
        (if blockingTime ?p' = 0 then handleInterrupt PL ?s1 (blockingQueue s) ?p' PROCESS_READY
         else handleInterrupt PL ?s1 (blockingQueue s) ?p' LOWER_PRIORITY)"
      using ps False by (simp add: Queue_doBlockingWork_def Let_def)
    with assms have "handleInterrupt PL ?s1 (blockingQueue s) ?p' PROCESS_READY = Inr s'
        \<or> handleInterrupt PL ?s1 (blockingQueue s) ?p' LOWER_PRIORITY = Inr s'"
      by (simp split: if_splits)
    then show ?thesis by blast
  qed
qed

lemma topology_doBlockingWork:
  assumes "Queue_doBlockingWork PL w s = Inr s'"
  shows "topology s' = topology s"
  using doBlockingWork_Inr [OF assms]
  by (auto simp: topology_dequeue_blocking dest!: topology_handleInterrupt)

lemma topology_scan:
  assumes "scan_runningQueues PL doC w i s = Inr s'"
    and "\<And>i w s s'. doC i w s = Inr s' \<Longrightarrow> topology s' = topology s"
  shows "topology s' = topology s"
  using assms
proof (induction PL doC w i s rule: scan_runningQueues.induct)
  case (1 PL doC w i s)
  show ?case
  proof (cases "i < PL \<and> i < length (runningQueues s) \<and> isEmpty (runningQueues s ! i)")
    case True
    then have "scan_runningQueues PL doC w (i + 1) s = Inr s'"
      using "1.prems"(1) by (subst (asm) scan_runningQueues.simps) simp
    with True "1.IH" "1.prems"(2) show ?thesis by simp
  next
    case False
    then have "doC i w s = Inr s' \<or> s' = s"
      using "1.prems"(1) by (subst (asm) scan_runningQueues.simps) (auto split: if_splits)
    with "1.prems"(2) show ?thesis by auto
  qed
qed

lemma topology_run_iteration:
  assumes "\<And>w s s'. doB w s = Inr s' \<Longrightarrow> topology s' = topology s"
    and "\<And>i w s s'. doC i w s = Inr s' \<Longrightarrow> topology s' = topology s"
    and "run_iteration PL doB doC t s = Inr s'"
  shows "topology s' = topology s"
proof -
  obtain s2 where
    b: "(if \<not> isEmpty (blockingQueue (s\<lparr>clock := t\<rparr>))
         then doB (t - clock s) (s\<lparr>clock := t\<rparr>) else Inr (s\<lparr>clock := t\<rparr>)) = Inr s2"
    and c: "scan_runningQueues PL doC (t - clock s) 0 s2 = Inr s'"
    using assms(3) by (auto simp: run_iteration_def Let_def split: sum.splits)
  from b have "topology s2 = topology s"
    using assms(1) [of "t - clock s" "s\<lparr>clock := t\<rparr>" s2] topology_clock [of t s]
    by (auto split: if_splits)
  moreover have "topology s' = topology s2"
    using topology_scan [OF c assms(2)] .
  ultimately show ?thesis by simp
qed


lemma topology_run_aux:
  assumes B: "\<And>w s s'. doB w s = Inr s' \<Longrightarrow> topology s' = topology s"
    and C: "\<And>i w s s'. doC i w s = Inr s' \<Longrightarrow> topology s' = topology s"
    and run: "run PL doB doC now k s = Some r"
  shows "\<forall>s'. r = Inr s' \<longrightarrow> topology s' = topology s"
proof -
  let ?P = "\<lambda>(PL' :: nat) doB' doC' (now' :: nat \<Rightarrow> int) (k' :: nat) s r.
      PL' = PL \<and> doB' = doB \<and> doC' = doC \<and> now' = now \<longrightarrow>
      (\<forall>s'. r = Inr s' \<longrightarrow> topology s' = topology s)"
  have "?P PL doB doC now k s r"
  proof (rule run.raw_induct [where P = ?P, OF _ run], intro impI allI, elim conjE)
    fix f PL' doB' doC' now' k s r s'
    assume IH: "\<And>PL' doB' doC' now' k s r. f PL' doB' doC' now' k s = Some r \<Longrightarrow> ?P PL' doB' doC' now' k s r"
      and step: "(case run_iteration PL' doB' doC' (now' k) s of
             Inl e \<Rightarrow> Some (Inl e)
           | Inr s' \<Rightarrow>
               (case allEmpty s' of
                  (b, s'') \<Rightarrow> if b then Some (Inr s'') else f PL' doB' doC' now' (k + 1) s'')) = Some r"
      and eqs: "PL' = PL" "doB' = doB" "doC' = doC" "now' = now"
      and r: "r = Inr s'"
    from step r eqs obtain s1 where
      it: "run_iteration PL doB doC (now k) s = Inr s1"
      and rest: "(if fst (allEmpty s1) then Some (Inr (snd (allEmpty s1)))
                  else f PL doB doC now (k + 1) (snd (allEmpty s1))) = Some (Inr s')"
      by (auto split: sum.splits prod.splits if_splits)
    have t1: "topology s1 = topology s"
      by (rule topology_run_iteration [OF B C it])
    have snd: "snd (allEmpty s1) = s1" by (simp add: allEmpty_def)
    show "topology s' = topology s"
    proof (cases "fst (allEmpty s1)")
      case True
      with rest snd t1 show ?thesis by simp
    next
      case False
      with rest snd have "f PL doB doC now (k + 1) s1 = Some (Inr s')" by simp
      from IH [OF this] have "topology s' = topology s1" by simp
      with t1 show ?thesis by simp
    qed
  qed
  then show ?thesis by simp
qed

lemma topology_constructor:
  "topology (Scheduler_constructor PL t) =
     ((50, 0, BLOCKING_QUEUE), map (\<lambda>i. (10 + int i * 20, int i, CPU_QUEUE)) [0..<PL])"
  by (simp add: topology_def Scheduler_constructor_def constructor_loop_eq shape_def
      new_Queue_def)

text \<open>
  C10. The constructor creates exactly \<open>PRIORITY_LEVELS\<close> CPU queues, the queue at index
  \<open>i\<close> with priority level \<open>i\<close> and quantum \<open>10 + i * 20\<close> (so the quantum grows strictly
  with the index), and one blocking queue with quantum 50. The number, order, priority
  levels, quanta and types of the queues are the same after \<^verbatim>\<open>addNewProcess\<close>,
  \<^verbatim>\<open>handleInterrupt\<close>, \<^verbatim>\<open>allEmpty\<close> and \<^verbatim>\<open>run\<close>: for \<^verbatim>\<open>run\<close>, whenever the work of
  the queues leaves the topology alone, and in particular with the work of the queues as
  the spec describes it.
\<close>

theorem topology_fixed:
  "topology (Scheduler_constructor PL t :: 'p Scheduler) =
     ((50, 0, BLOCKING_QUEUE), map (\<lambda>i. (10 + int i * 20, int i, CPU_QUEUE)) [0..<PL])
   \<and> (\<forall>i j. i < j \<and> j < PL \<longrightarrow>
         quantum (runningQueues (Scheduler_constructor PL t :: 'p Scheduler) ! i)
           < quantum (runningQueues (Scheduler_constructor PL t :: 'p Scheduler) ! j))
   \<and> (\<forall>(s :: 'p Scheduler) p s'. addNewProcess s p = Inr s' \<longrightarrow> topology s' = topology s)
   \<and> (\<forall>(s :: 'p Scheduler) q p interrupt s'.
         handleInterrupt PL s q p interrupt = Inr s' \<longrightarrow> topology s' = topology s)
   \<and> (\<forall>(s :: 'p Scheduler). topology (snd (allEmpty s)) = topology s)
   \<and> (\<forall>doBlockingWork doCPUWork now k (s :: 'p Scheduler) s'.
         (\<forall>w s s'. doBlockingWork w s = Inr s' \<longrightarrow> topology s' = topology s) \<longrightarrow>
         (\<forall>i w s s'. doCPUWork i w s = Inr s' \<longrightarrow> topology s' = topology s) \<longrightarrow>
         run PL doBlockingWork doCPUWork now k s = Some (Inr s') \<longrightarrow> topology s' = topology s)
   \<and> (\<forall>now k s s'.
         run PL (Queue_doBlockingWork PL) (Queue_doCPUWork PL) now k s = Some (Inr s') \<longrightarrow>
         topology s' = topology s)"
proof (intro conjI allI impI)
  show "topology (Scheduler_constructor PL t :: 'p Scheduler) =
     ((50, 0, BLOCKING_QUEUE), map (\<lambda>i. (10 + int i * 20, int i, CPU_QUEUE)) [0..<PL])"
    by (rule topology_constructor)
next
  fix i j assume "i < j \<and> j < PL"
  then show "quantum (runningQueues (Scheduler_constructor PL t :: 'p Scheduler) ! i)
           < quantum (runningQueues (Scheduler_constructor PL t :: 'p Scheduler) ! j)"
    by (simp add: runningQueues_constructor new_Queue_def)
next
  fix s :: "'p Scheduler" and p s'
  assume "addNewProcess s p = Inr s'"
  then show "topology s' = topology s" by (rule topology_addNewProcess)
next
  fix s :: "'p Scheduler" and q p interrupt s'
  assume "handleInterrupt PL s q p interrupt = Inr s'"
  then show "topology s' = topology s" by (rule topology_handleInterrupt)
next
  fix s :: "'p Scheduler"
  show "topology (snd (allEmpty s)) = topology s" by (simp add: allEmpty_def)
next
  fix doB doC now k and s :: "'p Scheduler" and s'
  assume B: "\<forall>w s s'. doB w s = Inr s' \<longrightarrow> topology s' = topology s"
    and C: "\<forall>i w s s'. doC i w s = Inr s' \<longrightarrow> topology s' = topology s"
    and run: "run PL doB doC now k s = Some (Inr s')"
  from B have B': "\<And>w s s'. doB w s = Inr s' \<Longrightarrow> topology s' = topology s"
    by simp
  from C have C': "\<And>i w s s'. doC i w s = Inr s' \<Longrightarrow> topology s' = topology s"
    by simp
  show "topology s' = topology s"
    using topology_run_aux [OF B' C' run] by simp
next
  fix now k s s'
  assume run: "run PL (Queue_doBlockingWork PL) (Queue_doCPUWork PL) now k s = Some (Inr s')"
  show "topology s' = topology s"
    using topology_run_aux [OF topology_doBlockingWork topology_doCPUWork run] by simp
qed

theorem topology_fixed_witness:
  "topology (Scheduler_constructor 3 0 :: process Scheduler) =
     ((50, 0, BLOCKING_QUEUE), [(10, 0, CPU_QUEUE), (30, 1, CPU_QUEUE), (50, 2, CPU_QUEUE)])
   \<and> ((1::nat) < 2 \<and> (2::nat) < 3
       \<and> quantum (runningQueues (Scheduler_constructor 3 0 :: process Scheduler) ! 1)
           < quantum (runningQueues (Scheduler_constructor 3 0 :: process Scheduler) ! 2))
   \<and> (addNewProcess (example_scheduler 0 [] [] [] []) P25 = Inr (example_scheduler 0 [] [P25] [] [])
       \<and> topology (example_scheduler 0 [] [P25] [] []) = topology (example_scheduler 0 [] [] [] []))
   \<and> (handleInterrupt 3 (example_scheduler 0 [] [] [] []) (new_Queue 10 0 CPU_QUEUE) P25 LOWER_PRIORITY
         = Inr (example_scheduler 0 [] [] [P25] [])
       \<and> topology (example_scheduler 0 [] [] [P25] []) = topology (example_scheduler 0 [] [] [] []))
   \<and> (run 3 (Queue_doBlockingWork 3) (Queue_doCPUWork 3) every_10ms 0 (example_scheduler 0 [] [P25] [] [])
         = Some (Inr (Scheduler_constructor 3 30))
       \<and> topology (Scheduler_constructor 3 30 :: process Scheduler) = topology (example_scheduler 0 [] [P25] [] []))"
proof -
  note T = topology_fixed [where PL = 3 and t = 0 and ?'p = process]
  have c1: "topology (Scheduler_constructor 3 0 :: process Scheduler) =
     ((50, 0, BLOCKING_QUEUE), [(10, 0, CPU_QUEUE), (30, 1, CPU_QUEUE), (50, 2, CPU_QUEUE)])"
    using T [THEN conjunct1] by (simp add: upt_conv_Cons)
  have lt: "(1::nat) < 2 \<and> (2::nat) < 3" by simp
  have c2: "quantum (runningQueues (Scheduler_constructor 3 0 :: process Scheduler) ! 1)
           < quantum (runningQueues (Scheduler_constructor 3 0 :: process Scheduler) ! 2)"
    using T [THEN conjunct2, THEN conjunct1, rule_format, OF lt] .
  have add: "addNewProcess (example_scheduler 0 [] [] [] []) P25 = Inr (example_scheduler 0 [] [P25] [] [])"
    using addNewProcess_example [of 0 "[]" "[]" "[]" "[]" P25] by simp
  have c3: "topology (example_scheduler 0 [] [P25] [] []) = topology (example_scheduler 0 [] [] [] [])"
    using T [THEN conjunct2, THEN conjunct2, THEN conjunct1, rule_format, OF add] .
  have hi: "handleInterrupt 3 (example_scheduler 0 [] [] [] []) (new_Queue 10 0 CPU_QUEUE) P25 LOWER_PRIORITY
         = Inr (example_scheduler 0 [] [] [P25] [])"
    by (simp add: handleInterrupt_def interrupts_distinct example_scheduler_def
        getQueueType_def getPriorityLevel_def new_Queue_def runningQueues_enqueue_def
        enqueue_def)
  have c4: "topology (example_scheduler 0 [] [] [P25] []) = topology (example_scheduler 0 [] [] [] [])"
    using T [THEN conjunct2, THEN conjunct2, THEN conjunct2, THEN conjunct1, rule_format, OF hi] .
  have c5: "topology (Scheduler_constructor 3 30 :: process Scheduler) = topology (example_scheduler 0 [] [P25] [] [])"
    using T [THEN conjunct2, THEN conjunct2, THEN conjunct2, THEN conjunct2, THEN conjunct2,
        THEN conjunct1, rule_format, OF topology_doBlockingWork topology_doCPUWork run_P25] .
  have c6: "topology (Scheduler_constructor 3 30 :: process Scheduler) = topology (example_scheduler 0 [] [P25] [] [])"
    using T [THEN conjunct2, THEN conjunct2, THEN conjunct2, THEN conjunct2, THEN conjunct2,
        THEN conjunct2, rule_format, OF run_P25] .
  show ?thesis
    using c1 lt c2 add c3 hi c4 run_P25 c5 c6 by simp
qed

section \<open>Termination of the dispatch loop\<close>

subsection \<open>One pass makes progress\<close>




subsection \<open>The loop\<close>





subsection \<open>The work of the queues of the spec makes progress\<close>

























subsection \<open>Termination and exit\<close>




end
